theory Spec2Isabelle
  imports Complex_Main "HOL-Library.Log_Nat"
begin

section \<open>Python floats and the two built-in operations the handler uses\<close>

text \<open>
  \<^verbatim>\<open>calculate_map\<close> divides two Python ints with \<^verbatim>\<open>/\<close> and rounds the quotient with
  \<^verbatim>\<open>round(x, 1)\<close>. Both are exact operations followed by one rounding to the nearest
  IEEE 754 binary64 number, so a finite float is represented by its exact value, a
  rational. Infinities, NaN and the sign of zero are not represented: true division of
  ints and \<^verbatim>\<open>round\<close> on a finite float raise OverflowError instead of returning an
  infinity, and never return NaN.
\<close>

type_synonym py_float = rat

datatype py_exception = ZeroDivisionError | OverflowError

definition pow2 :: "int \<Rightarrow> rat" where
  "pow2 e = (if 0 \<le> e then 2 ^ nat e else 1 / 2 ^ nat (- e))"

definition pow10 :: "int \<Rightarrow> rat" where
  "pow10 e = (if 0 \<le> e then 10 ^ nat e else 1 / 10 ^ nat (- e))"

text \<open>
  The binary exponent of a positive rational \<open>x = p / q\<close>: the \<open>e\<close> with
  \<open>2 ^ e \<le> x < 2 ^ (e + 1)\<close>. The bit lengths of \<open>p\<close> and \<open>q\<close> give it up to one.
\<close>

definition ilog2 :: "rat \<Rightarrow> int" where
  "ilog2 x =
     (let (p, q) = quotient_of x;
          e0 = bitlen p - bitlen q
      in if pow2 e0 \<le> x then e0 else e0 - 1)"

text \<open>Rounding a rational to the nearest integer, a tie going to the even neighbour.\<close>

definition round_half_even :: "rat \<Rightarrow> int" where
  "round_half_even x =
     (let f = \<lfloor>x\<rfloor>; r = x - of_int f
      in if r < 1 / 2 then f
         else if 1 / 2 < r then f + 1
         else if even f then f else f + 1)"

text \<open>
  Round to nearest binary64, ties to even, with the exponent unbounded above: 53
  significant bits for a normal number, multiples of \<open>2 ^ -1074\<close> below \<open>2 ^ -1022\<close>.
  A result of magnitude \<open>2 ^ 1024\<close> or more is an overflow, which the callers test.
\<close>

definition nearest_double :: "rat \<Rightarrow> rat" where
  "nearest_double x =
     (if x = 0 then 0
      else let e = max (ilog2 \<bar>x\<bar>) (- 1022);
               ulp = pow2 (e - 52)
           in of_int (round_half_even (x / ulp)) * ulp)"

text \<open>
  \<^verbatim>\<open>a / b\<close> on ints (CPython's \<^verbatim>\<open>long_true_divide\<close>): the exact quotient, correctly
  rounded; ZeroDivisionError for \<open>b = 0\<close>, OverflowError when the rounded quotient is too
  large for a float.
\<close>

definition int_truediv :: "int \<Rightarrow> int \<Rightarrow> py_exception + py_float" where
  "int_truediv a b =
     (if b = 0 then Inl ZeroDivisionError
      else let r = nearest_double (of_int a / of_int b)
           in if pow2 1024 \<le> \<bar>r\<bar> then Inl OverflowError else Inr r)"

text \<open>
  \<^verbatim>\<open>round(x, ndigits)\<close> on a finite float (CPython's \<^verbatim>\<open>float.__round__\<close>): beyond 323
  digits \<open>x\<close> is returned, below -308 digits zero; otherwise \<open>x\<close> is converted to the
  decimal with \<open>ndigits\<close> digits after the point that is nearest to its exact value (a
  tie going to the even digit), and that decimal is converted back to the nearest float.
  OverflowError when the decimal is too large for a float.
\<close>

definition float_round :: "py_float \<Rightarrow> int \<Rightarrow> py_exception + py_float" where
  "float_round x ndigits =
     (if 323 < ndigits then Inr x
      else if ndigits < - 308 then Inr 0
      else let p = pow10 ndigits;
               r = nearest_double (of_int (round_half_even (x * p)) / p)
           in if pow2 1024 \<le> \<bar>r\<bar> then Inl OverflowError else Inr r)"

text \<open>A decimal literal of the program text, such as \<^verbatim>\<open>93.3\<close>: the float nearest to it.\<close>

definition float_literal :: "rat \<Rightarrow> py_float" where
  "float_literal x = nearest_double x"


section \<open>The schemas\<close>

text \<open>
  \<^verbatim>\<open>MAPFormInput\<close> has two required int fields, each with \<^verbatim>\<open>ge\<close> and \<^verbatim>\<open>le\<close> bounds;
  \<^verbatim>\<open>MAPFormOutput\<close> has the float field \<^verbatim>\<open>map\<close> (here \<open>map_mmHg\<close>, as \<open>map\<close> is the list
  functional of HOL).
\<close>

record MAPFormInput =
  systolic_bp :: int
  diastolic_bp :: int

record MAPFormOutput =
  map_mmHg :: py_float

text \<open>
  The fields of the form arrive as text, and the schema's int parser reads them. A field
  is: absent; a text of more than 4300 characters, which the parser refuses for its size
  without reading it; a text that does not read as an integer; a text that reads as an
  integer. Which texts read as which integer is the framework's business and is not
  modelled, except for the size limit: a text is at least as long as the decimal numeral
  of the integer it reads as, so an integer whose numeral has more than 4300 characters
  is refused for its size as well.
\<close>

datatype form_field = Absent | Oversized | Malformed | Int_value int

text \<open>The number of characters of the decimal numeral of an integer, its sign included.\<close>

fun digits :: "nat \<Rightarrow> nat" where
  "digits n = (if n < 10 then 1 else Suc (digits (n div 10)))"

definition decimal_length :: "int \<Rightarrow> nat" where
  "decimal_length i = (if i < 0 then 1 else 0) + digits (nat \<bar>i\<bar>)"

text \<open>
  The error kinds of the schema validation: a required field is absent, a text is too
  long to be parsed as an int, a text is not an int, a value is below its \<^verbatim>\<open>ge\<close> bound,
  a value is above its \<^verbatim>\<open>le\<close> bound.
\<close>

datatype error_type =
  missing | int_parsing_size | int_parsing | greater_than_equal int | less_than_equal int

type_synonym validation_error = "string \<times> error_type"

definition int_field :: "string \<Rightarrow> int \<Rightarrow> int \<Rightarrow> form_field \<Rightarrow> validation_error list + int" where
  "int_field name ge le v =
     (case v of
        Absent \<Rightarrow> Inl [(name, missing)]
      | Oversized \<Rightarrow> Inl [(name, int_parsing_size)]
      | Malformed \<Rightarrow> Inl [(name, int_parsing)]
      | Int_value i \<Rightarrow>
          if 4300 < decimal_length i then Inl [(name, int_parsing_size)]
          else if i < ge then Inl [(name, greater_than_equal ge)]
          else if le < i then Inl [(name, less_than_equal le)]
          else Inr i)"

definition errors_of :: "validation_error list + 'a \<Rightarrow> validation_error list" where
  "errors_of r = (case r of Inl es \<Rightarrow> es | Inr _ \<Rightarrow> [])"

text \<open>
  Validation of the whole schema: every field is checked, in the order of declaration,
  and the errors of all fields are reported together.
\<close>

definition MAPFormInput_validate ::
    "form_field \<Rightarrow> form_field \<Rightarrow> validation_error list + MAPFormInput" where
  "MAPFormInput_validate s d =
     (let rs = int_field ''systolic_bp'' 50 250 s;
          rd = int_field ''diastolic_bp'' 30 150 d
      in case (rs, rd) of
           (Inr s', Inr d') \<Rightarrow> Inr \<lparr>systolic_bp = s', diastolic_bp = d'\<rparr>
         | _ \<Rightarrow> Inl (errors_of rs @ errors_of rd))"


section \<open>The handler\<close>

text \<open>
  \<^verbatim>\<open>
  map_value = (data.systolic_bp + 2 * data.diastolic_bp) / 3
  map_value = round(map_value, 1)
  return MAPFormOutput(map=map_value)
  \<close>
  An exception of either built-in leaves the function.
\<close>

definition calculate_map :: "MAPFormInput \<Rightarrow> py_exception + MAPFormOutput" where
  "calculate_map data =
     (case int_truediv (systolic_bp data + 2 * diastolic_bp data) 3 of
        Inl e \<Rightarrow> Inl e
      | Inr map_value \<Rightarrow>
          (case float_round map_value 1 of
             Inl e \<Rightarrow> Inl e
           | Inr map_value' \<Rightarrow> Inr \<lparr>map_mmHg = map_value'\<rparr>))"

text \<open>
  The route \<^verbatim>\<open>POST /calculate\<close>: the form is validated into a \<^verbatim>\<open>MAPFormInput\<close>; a
  validation failure is answered without calling the handler, otherwise the handler
  runs on the validated input.
\<close>

datatype response =
  Result MAPFormOutput
| ValidationError "validation_error list"
| ServerError py_exception

definition post_calculate :: "form_field \<Rightarrow> form_field \<Rightarrow> response" where
  "post_calculate s d =
     (case MAPFormInput_validate s d of
        Inl errs \<Rightarrow> ValidationError errs
      | Inr data \<Rightarrow>
          (case calculate_map data of
             Inl e \<Rightarrow> ServerError e
           | Inr out \<Rightarrow> Result out))"

text \<open>
  \<^verbatim>\<open>compute(s, d)\<close> of the specification: the route on two fields that read as the
  integers \<open>s\<close> and \<open>d\<close>.
\<close>

definition compute :: "int \<Rightarrow> int \<Rightarrow> response" where
  "compute s d = post_calculate (Int_value s) (Int_value d)"


section \<open>The handler as a program on the state of the process\<close>

text \<open>
  The module holds one object besides its classes and its function: \<^verbatim>\<open>app\<close>, built with a
  title, a description and a version, and given the CORS middleware with its four
  settings. A statement of Python may read and assign module-level names, so a statement
  is modelled as a function from the state of the module to an outcome (an exception or a
  value) and the state it leaves.
\<close>

record app_state =
  title :: string
  description :: string
  version :: string
  allow_origins :: "string list"
  allow_credentials :: bool
  allow_methods :: "string list"
  allow_headers :: "string list"







section \<open>The specification's reading of the formula\<close>

text \<open>
  The specification describes the result as the exact quotient \<open>(s + 2 d) / 3\<close>
  rounded to one decimal place, by round-half-to-even or by round-half-away-from-zero.
  These definitions follow its words, on exact rationals, for comparison with the
  handler's floating-point computation.
\<close>

definition spec_formula :: "int \<Rightarrow> int \<Rightarrow> rat" where
  "spec_formula s d = (of_int s + 2 * of_int d) / 3"

definition round_half_away :: "rat \<Rightarrow> int" where
  "round_half_away x = (if 0 \<le> x then \<lfloor>x + 1 / 2\<rfloor> else - \<lfloor>- x + 1 / 2\<rfloor>)"

definition spec_round1_half_even :: "rat \<Rightarrow> rat" where
  "spec_round1_half_even x = of_int (round_half_even (x * 10)) / 10"

definition spec_round1_half_away :: "rat \<Rightarrow> rat" where
  "spec_round1_half_away x = of_int (round_half_away (x * 10)) / 10"

text \<open>The number of tenths nearest to \<open>n / 3\<close>, in integer arithmetic.\<close>

definition nearest_tenth :: "int \<Rightarrow> int" where
  "nearest_tenth n = (10 * n + 1) div 3"


section \<open>The length of a numeral\<close>

declare digits.simps [simp del]

lemma digits_upper: "0 < k \<Longrightarrow> n < 10 ^ k \<Longrightarrow> digits n \<le> k"
proof (induction k arbitrary: n)
  case 0
  then show ?case by simp
next
  case (Suc k)
  show ?case
  proof (cases "n < 10")
    case True
    then show ?thesis by (subst digits.simps) simp
  next
    case False
    with Suc.prems have k: "0 < k" by (cases k) simp_all
    have "n div 10 < 10 ^ k" using Suc.prems(2) by (simp add: less_mult_imp_div_less)
    then have "digits (n div 10) \<le> k" using Suc.IH k by simp
    with False show ?thesis by (subst digits.simps) simp
  qed
qed


text \<open>The values within the bounds of the schema are written in three characters or fewer.\<close>

lemma decimal_length_small: "0 \<le> i \<Longrightarrow> i < 1000 \<Longrightarrow> decimal_length i \<le> 3"
  using digits_upper [of 3 "nat \<bar>i\<bar>"] by (simp add: decimal_length_def)




section \<open>Powers of two and the binary exponent\<close>

lemma pow2_powi: "pow2 e = 2 powi e"
  unfolding pow2_def power_int_def by (simp add: inverse_eq_divide power_one_over)

lemma pow2_pos: "0 < pow2 e"
  by (simp add: pow2_powi)

lemma pow2_add: "pow2 (a + b) = pow2 a * pow2 b"
  by (simp add: pow2_powi power_int_add)

lemma pow2_mono: "a \<le> b \<Longrightarrow> pow2 a \<le> pow2 b"
  by (simp add: pow2_powi power_int_increasing)

lemma pow2_nat: "0 \<le> e \<Longrightarrow> pow2 e = 2 ^ nat e"
  by (simp add: pow2_def)

lemma pow2_exponent_unique:
  assumes "pow2 e \<le> x" "x < pow2 (e + 1)" "pow2 e' \<le> x" "x < pow2 (e' + 1)"
  shows "e = e'"
proof (rule ccontr)
  assume "e \<noteq> e'"
  then consider "e + 1 \<le> e'" | "e' + 1 \<le> e" by linarith
  then show False
  proof cases
    case 1
    from pow2_mono [OF 1] assms show False by linarith
  next
    case 2
    from pow2_mono [OF 2] assms show False by linarith
  qed
qed

text \<open>\<open>ilog2\<close> is the binary exponent: it brackets every positive rational.\<close>

lemma ilog2_bounds:
  assumes "0 < x"
  shows "pow2 (ilog2 x) \<le> x \<and> x < pow2 (ilog2 x + 1)"
proof -
  obtain p q where pq: "quotient_of x = (p, q)" by (cases "quotient_of x")
  have q: "0 < q" using pq quotient_of_denom_pos by blast
  have x: "x = of_int p / of_int q" using pq quotient_of_div by blast
  have p: "0 < p" using assms q x by (simp add: zero_less_divide_iff)
  define bp where "bp = bitlen p"
  define bq where "bq = bitlen q"
  have bp1: "1 \<le> bp" using p by (simp add: bp_def bitlen_alt_def)
  have bq1: "1 \<le> bq" using q by (simp add: bq_def bitlen_alt_def)
  have "2 ^ nat (bp - 1) \<le> p" "p < 2 ^ nat bp" "2 ^ nat (bq - 1) \<le> q" "q < 2 ^ nat bq"
    using bitlen_bounds [OF p] bitlen_bounds [OF q] by (simp_all add: bp_def bq_def)
  then have "(of_int (2 ^ nat (bp - 1)) :: rat) \<le> of_int p"
    "(of_int p :: rat) < of_int (2 ^ nat bp)"
    "(of_int (2 ^ nat (bq - 1)) :: rat) \<le> of_int q"
    "(of_int q :: rat) < of_int (2 ^ nat bq)"
    by (simp_all only: of_int_le_iff of_int_less_iff)
  then have P: "pow2 (bp - 1) \<le> of_int p" "of_int p < pow2 bp"
    and Q: "pow2 (bq - 1) \<le> of_int q" "of_int q < pow2 bq"
    using bp1 bq1 by (simp_all add: pow2_nat)
  have qpos: "(0::rat) < of_int q" using q by simp
  have lo: "pow2 (bp - bq - 1) < x"
  proof -
    have "pow2 (bp - bq - 1) * of_int q < pow2 (bp - bq - 1) * pow2 bq"
      using Q(2) pow2_pos by simp
    also have "\<dots> = pow2 (bp - 1)" by (simp add: pow2_add [symmetric])
    also have "\<dots> \<le> of_int p" by (rule P(1))
    finally show ?thesis using qpos by (simp add: x pos_less_divide_eq)
  qed
  have hi: "x < pow2 (bp - bq + 1)"
  proof -
    have "of_int p < pow2 bp" by (rule P(2))
    also have "\<dots> = pow2 (bp - bq + 1) * pow2 (bq - 1)" by (simp add: pow2_add [symmetric])
    also have "\<dots> \<le> pow2 (bp - bq + 1) * of_int q"
      using Q(1) pow2_pos by simp
    finally show ?thesis using qpos by (simp add: x pos_divide_less_eq)
  qed
  show ?thesis
  proof (cases "pow2 (bp - bq) \<le> x")
    case True
    then have "ilog2 x = bp - bq" by (simp add: ilog2_def pq bp_def bq_def)
    with True hi show ?thesis by simp
  next
    case False
    then have "ilog2 x = bp - bq - 1" by (simp add: ilog2_def pq bp_def bq_def)
    with False lo show ?thesis by simp
  qed
qed

lemma ilog2_eq:
  assumes "pow2 e \<le> x" "x < pow2 (e + 1)"
  shows "ilog2 x = e"
proof -
  have "0 < x" using assms(1) pow2_pos [of e] by linarith
  from ilog2_bounds [OF this] assms show ?thesis
    using pow2_exponent_unique by blast
qed


section \<open>Rounding to an integer and to a float\<close>

lemma round_half_even_error: "\<bar>of_int (round_half_even x) - x\<bar> \<le> 1 / 2"
proof -
  define f where "f = \<lfloor>x\<rfloor>"
  have "of_int f \<le> x" "x < of_int f + 1"
    using floor_correct [of x] by (simp_all add: f_def)
  then show ?thesis
    unfolding round_half_even_def Let_def f_def [symmetric]
    by (auto simp: abs_le_iff)
qed

lemma round_half_even_eq:
  assumes "\<bar>x - of_int k\<bar> < 1 / 2"
  shows "round_half_even x = k"
proof -
  have "\<bar>(of_int (round_half_even x) :: rat) - of_int k\<bar> < 1"
    using round_half_even_error [of x] assms by linarith
  then have "\<bar>(of_int (round_half_even x - k) :: rat)\<bar> < 1" by simp
  then have "\<bar>round_half_even x - k\<bar> < 1"
    by (metis of_int_abs of_int_less_1_iff)
  then show ?thesis by linarith
qed

lemma nearest_double_eq:
  assumes "pow2 e \<le> x" "x < pow2 (e + 1)" "- 1022 \<le> e"
  shows "nearest_double x = of_int (round_half_even (x / pow2 (e - 52))) * pow2 (e - 52)"
proof -
  have pos: "0 < x" using assms(1) pow2_pos [of e] by linarith
  then have "ilog2 \<bar>x\<bar> = e" using assms ilog2_eq by simp
  with pos assms(3) show ?thesis by (simp add: nearest_double_def Let_def max_def)
qed

text \<open>The rounding error of a normal number is at most half a unit in the last place.\<close>

lemma nearest_double_error:
  assumes "pow2 e \<le> x" "x < pow2 (e + 1)" "- 1022 \<le> e"
  shows "\<bar>nearest_double x - x\<bar> \<le> pow2 (e - 53)"
proof -
  define u where "u = pow2 (e - 52)"
  have u: "0 < u" by (simp add: u_def pow2_pos)
  have half: "u / 2 = pow2 (e - 53)"
    using pow2_add [of "e - 53" 1] by (simp add: u_def pow2_def)
  define m where "m = round_half_even (x / u)"
  have "nearest_double x - x = (of_int m - x / u) * u"
    using u by (simp add: nearest_double_eq [OF assms] m_def u_def [symmetric] field_simps)
  then have "\<bar>nearest_double x - x\<bar> = \<bar>of_int m - x / u\<bar> * u"
    using u by (simp add: abs_mult)
  also have "\<dots> \<le> 1 / 2 * u"
    using round_half_even_error [of "x / u"] u by (simp add: m_def)
  finally show ?thesis using half by simp
qed

text \<open>Between 32 and 256 the exponent is 5, 6 or 7.\<close>

lemma nearest_double_near:
  assumes "32 \<le> x" "x < 256"
  shows "\<bar>nearest_double x - x\<bar> \<le> 1 / 2 ^ 46"
proof -
  consider "x < 64" | "64 \<le> x" "x < 128" | "128 \<le> x" by linarith
  then show ?thesis
  proof cases
    case 1
    have "\<bar>nearest_double x - x\<bar> \<le> pow2 (5 - 53)"
      by (rule nearest_double_error) (use assms 1 in \<open>simp_all add: pow2_def\<close>)
    then show ?thesis by (simp add: pow2_def)
  next
    case 2
    have "\<bar>nearest_double x - x\<bar> \<le> pow2 (6 - 53)"
      by (rule nearest_double_error) (use assms 2 in \<open>simp_all add: pow2_def\<close>)
    then show ?thesis by (simp add: pow2_def)
  next
    case 3
    have "\<bar>nearest_double x - x\<bar> \<le> pow2 (7 - 53)"
      by (rule nearest_double_error) (use assms 3 in \<open>simp_all add: pow2_def\<close>)
    then show ?thesis by (simp add: pow2_def)
  qed
qed


section \<open>The handler on validated input\<close>

lemma nearest_tenth_close:
  "\<bar>10 * of_int n / 3 - (of_int (nearest_tenth n) :: rat)\<bar> \<le> 1 / 3"
proof -
  define k where "k = nearest_tenth n"
  have "3 * k \<le> 10 * n + 1" "10 * n + 1 < 3 * k + 3"
    unfolding k_def nearest_tenth_def by presburger+
  then have "10 * n - 1 \<le> 3 * k" "3 * k \<le> 10 * n + 1" by linarith+
  then have "(of_int (10 * n - 1) :: rat) \<le> of_int (3 * k)"
    "(of_int (3 * k) :: rat) \<le> of_int (10 * n + 1)"
    by (simp_all only: of_int_le_iff)
  then have "10 * (of_int n :: rat) - 1 \<le> 3 * of_int k"
    "3 * (of_int k :: rat) \<le> 10 * of_int n + 1"
    by simp_all
  then show ?thesis unfolding k_def [symmetric] by linarith
qed

lemma round_half_even_tenth: "round_half_even (10 * of_int n / 3) = nearest_tenth n"
  by (rule round_half_even_eq) (use nearest_tenth_close [of n] in linarith)

lemma round_half_away_tenth:
  assumes "0 \<le> n"
  shows "round_half_away (10 * of_int n / 3) = nearest_tenth n"
proof -
  define k where "k = nearest_tenth n"
  have "of_int k \<le> 10 * of_int n / 3 + (1 / 2 :: rat)"
    "10 * of_int n / 3 + (1 / 2 :: rat) < of_int k + 1"
    using nearest_tenth_close [of n] unfolding k_def by linarith+
  then have "\<lfloor>10 * of_int n / 3 + (1 / 2 :: rat)\<rfloor> = k"
    by (simp add: floor_unique)
  with assms show ?thesis by (simp add: round_half_away_def k_def)
qed

lemma nearest_tenth_range:
  assumes "110 \<le> n" "n \<le> 550"
  shows "366 \<le> nearest_tenth n \<and> nearest_tenth n \<le> 1834"
  using assms unfolding nearest_tenth_def by presburger

text \<open>
  \<^verbatim>\<open>round(x, 1)\<close> returns the float of \<open>k\<close> tenths whenever \<open>x\<close> is nearer to \<open>k\<close> tenths
  than to any other number of tenths.
\<close>

lemma float_round_tenth:
  assumes "366 \<le> k" "k \<le> 1834" "\<bar>x * 10 - of_int k\<bar> < 1 / 2"
  shows "float_round x 1 = Inr (nearest_double (of_int k / 10))"
proof -
  have k: "round_half_even (x * 10) = k" using assms(3) by (rule round_half_even_eq)
  have r: "32 \<le> (of_int k / 10 :: rat)" "(of_int k / 10 :: rat) < 256"
    using assms(1,2) by simp_all
  have "(1 / 2 ^ 46 :: rat) \<le> 1" by simp
  then have "\<bar>nearest_double (of_int k / 10)\<bar> < 257"
    using nearest_double_near [OF r] r by linarith
  also have "\<dots> \<le> pow2 1024" by (simp add: pow2_def)
  finally show ?thesis by (simp add: float_round_def pow10_def Let_def k)
qed

lemma truediv_three:
  assumes "110 \<le> n" "n \<le> 550"
  shows "int_truediv n 3 = Inr (nearest_double (of_int n / 3))
    \<and> \<bar>nearest_double (of_int n / 3) - of_int n / 3\<bar> \<le> 1 / 2 ^ 46"
proof -
  have r: "32 \<le> (of_int n / 3 :: rat)" "(of_int n / 3 :: rat) < 256"
    using assms by simp_all
  have e: "\<bar>nearest_double (of_int n / 3) - of_int n / 3\<bar> \<le> 1 / 2 ^ 46"
    by (rule nearest_double_near [OF r])
  have "(1 / 2 ^ 46 :: rat) \<le> 1" by simp
  then have "\<bar>nearest_double (of_int n / 3)\<bar> < 257"
    using e r by linarith
  also have "\<dots> \<le> pow2 1024" by (simp add: pow2_def)
  finally have "int_truediv n 3 = Inr (nearest_double (of_int n / 3))"
    by (simp add: int_truediv_def Let_def)
  with e show ?thesis by simp
qed

text \<open>
  The quotient carries an error of at most \<open>2 ^ -46\<close>, and \<open>10 n / 3\<close> is never nearer
  than \<open>1 / 6\<close> to a tie, so rounding the float quotient and rounding the exact quotient
  choose the same number of tenths.
\<close>

lemma round_of_quotient:
  assumes "110 \<le> n" "n \<le> 550"
  shows "float_round (nearest_double (of_int n / 3)) 1
    = Inr (nearest_double (of_int (nearest_tenth n) / 10))"
proof -
  define q where "q = nearest_double (of_int n / 3)"
  have small: "(1 / 2 ^ 46 :: rat) \<le> 1 / 1000" by simp
  have "\<bar>q - of_int n / 3\<bar> \<le> 1 / 2 ^ 46"
    using truediv_three [OF assms] by (simp add: q_def)
  then have "\<bar>q * 10 - of_int (nearest_tenth n)\<bar> < 1 / 2"
    using nearest_tenth_close [of n] small by linarith
  then show ?thesis
    unfolding q_def [symmetric]
    using nearest_tenth_range [OF assms] by (intro float_round_tenth) simp_all
qed

text \<open>Rounding the result once more changes nothing.\<close>

lemma round_of_result:
  assumes "366 \<le> k" "k \<le> 1834"
  shows "float_round (nearest_double (of_int k / 10)) 1 = Inr (nearest_double (of_int k / 10))"
proof -
  have r: "32 \<le> (of_int k / 10 :: rat)" "(of_int k / 10 :: rat) < 256"
    using assms by simp_all
  have small: "(1 / 2 ^ 46 :: rat) \<le> 1 / 1000" by simp
  have "\<bar>nearest_double (of_int k / 10) * 10 - of_int k\<bar> < 1 / 2"
    using nearest_double_near [OF r] small by linarith
  then show ?thesis using assms by (intro float_round_tenth) simp_all
qed

lemma calculate_map_value:
  assumes "110 \<le> s + 2 * d" "s + 2 * d \<le> 550"
  shows "calculate_map \<lparr>systolic_bp = s, diastolic_bp = d\<rparr>
    = Inr \<lparr>map_mmHg = float_literal (of_int (nearest_tenth (s + 2 * d)) / 10)\<rparr>"
  using truediv_three [OF assms] round_of_quotient [OF assms]
  by (simp add: calculate_map_def float_literal_def)

lemma validate_accepts:
  assumes "50 \<le> s" "s \<le> 250" "30 \<le> d" "d \<le> 150"
  shows "MAPFormInput_validate (Int_value s) (Int_value d)
    = Inr \<lparr>systolic_bp = s, diastolic_bp = d\<rparr>"
  using assms decimal_length_small [of s] decimal_length_small [of d]
  by (simp add: MAPFormInput_validate_def int_field_def)

lemma compute_value:
  assumes "50 \<le> s" "s \<le> 250" "30 \<le> d" "d \<le> 150"
  shows "compute s d = Result \<lparr>map_mmHg = float_literal (of_int (nearest_tenth (s + 2 * d)) / 10)\<rparr>"
proof -
  have "110 \<le> s + 2 * d" "s + 2 * d \<le> 550" using assms by linarith+
  then show ?thesis
    using validate_accepts [OF assms]
    by (simp add: compute_def post_calculate_def calculate_map_value)
qed

lemma spec_half_even_tenth:
  "spec_round1_half_even (spec_formula s d) = of_int (nearest_tenth (s + 2 * d)) / 10"
proof -
  have "spec_formula s d * 10 = 10 * of_int (s + 2 * d) / 3"
    by (simp add: spec_formula_def)
  then show ?thesis by (simp only: spec_round1_half_even_def round_half_even_tenth)
qed

lemma spec_half_away_tenth:
  assumes "0 \<le> s + 2 * d"
  shows "spec_round1_half_away (spec_formula s d) = of_int (nearest_tenth (s + 2 * d)) / 10"
proof -
  have "spec_formula s d * 10 = 10 * of_int (s + 2 * d) / 3"
    by (simp add: spec_formula_def)
  then show ?thesis by (simp only: spec_round1_half_away_def round_half_away_tenth [OF assms])
qed

text \<open>Two decimals that differ by a tenth or more are different floats.\<close>

lemma float_literal_near:
  assumes "32 \<le> x" "x < 256"
  shows "\<bar>float_literal x - x\<bar> \<le> 1 / 1000"
proof -
  have "(1 / 2 ^ 46 :: rat) \<le> 1 / 1000" by simp
  then show ?thesis
    using nearest_double_near [OF assms] by (simp add: float_literal_def)
qed


text \<open>The floats of the decimals that the scenarios name, by their exact values.\<close>

lemma nearest_double_value:
  assumes "pow2 e \<le> x" "x < pow2 (e + 1)" "- 1022 \<le> e"
    and "\<bar>x / pow2 (e - 52) - of_int m\<bar> < 1 / 2"
  shows "nearest_double x = of_int m * pow2 (e - 52)"
  using nearest_double_eq [OF assms(1-3)] round_half_even_eq [OF assms(4)] by simp

lemma float_93_3: "float_literal (933 / 10) = 6565403831776051 / 70368744177664"
  unfolding float_literal_def
  by (subst nearest_double_value [of 6 _ 6565403831776051]) (simp_all add: pow2_def)

lemma float_36_7: "float_literal (367 / 10) = 2582532911320269 / 70368744177664"
  unfolding float_literal_def
  by (subst nearest_double_value [of 5 _ 5165065822640538]) (simp_all add: pow2_def)

lemma float_183_3: "float_literal (1833 / 10) = 3224647701941453 / 17592186044416"
  unfolding float_literal_def
  by (subst nearest_double_value [of 7 _ 6449295403882906]) (simp_all add: pow2_def)

lemma float_116_7: "float_literal (1167 / 10) = 8212032445533389 / 70368744177664"
  unfolding float_literal_def
  by (subst nearest_double_value [of 6 _ 8212032445533389]) (simp_all add: pow2_def)


section \<open>The claims\<close>

text \<open>
  Claim C1. For all integers \<open>s\<close> in \<open>[50, 250]\<close> and \<open>d\<close> in \<open>[30, 150]\<close>, the route
  returns a Result whose map field is \<^verbatim>\<open>round((s + 2*d)/3, 1)\<close>: the float quotient \<open>q\<close> of
  the true division, rounded to one decimal by \<^verbatim>\<open>round\<close>. That float is also the one
  nearest to the exact quotient rounded to one decimal place, under round-half-to-even
  and under round-half-away-from-zero alike.
\<close>

theorem compute_is_rounded_formula:
  assumes "50 \<le> s" "s \<le> 250" "30 \<le> d" "d \<le> 150"
  shows "\<exists>q r. int_truediv (s + 2 * d) 3 = Inr q \<and> float_round q 1 = Inr r
    \<and> compute s d = Result \<lparr>map_mmHg = r\<rparr>
    \<and> r = float_literal (spec_round1_half_even (spec_formula s d))
    \<and> r = float_literal (spec_round1_half_away (spec_formula s d))"
proof -
  have n: "110 \<le> s + 2 * d" "s + 2 * d \<le> 550" using assms by linarith+
  then have pos: "0 \<le> s + 2 * d" by linarith
  define r where "r = float_literal (of_int (nearest_tenth (s + 2 * d)) / 10)"
  have "int_truediv (s + 2 * d) 3 = Inr (nearest_double (of_int (s + 2 * d) / 3))"
    using truediv_three [OF n] by simp
  moreover have "float_round (nearest_double (of_int (s + 2 * d) / 3)) 1 = Inr r"
    using round_of_quotient [OF n] by (simp add: r_def float_literal_def)
  moreover have "compute s d = Result \<lparr>map_mmHg = r\<rparr>"
    using compute_value [OF assms] by (simp add: r_def)
  moreover have "r = float_literal (spec_round1_half_even (spec_formula s d))"
    by (simp only: r_def spec_half_even_tenth)
  moreover have "r = float_literal (spec_round1_half_away (spec_formula s d))"
    by (simp only: r_def spec_half_away_tenth [OF pos])
  ultimately show ?thesis by blast
qed

theorem compute_is_rounded_formula_witness:
  "(50::int) \<le> 120 \<and> (120::int) \<le> 250 \<and> (30::int) \<le> 80 \<and> (80::int) \<le> 150
   \<and> (\<exists>q r. int_truediv (120 + 2 * 80) 3 = Inr q \<and> float_round q 1 = Inr r
    \<and> compute 120 80 = Result \<lparr>map_mmHg = r\<rparr>
    \<and> r = float_literal (spec_round1_half_even (spec_formula 120 80))
    \<and> r = float_literal (spec_round1_half_away (spec_formula 120 80)))"
  using compute_is_rounded_formula [of 120 80] by simp

text \<open>
  Claim C2, as stated: \<^verbatim>\<open>compute(250, 150)\<close> returns a Result whose map field equals
  216.7. It does not: \<open>(250 + 2 * 150) / 3\<close> is \<open>183.33...\<close>.
\<close>

theorem compute_250_150_not_216_7:
  "compute 250 150 \<noteq> Result \<lparr>map_mmHg = float_literal (2167 / 10)\<rparr>"
proof -
  have v: "compute 250 150 = Result \<lparr>map_mmHg = float_literal (1833 / 10)\<rparr>"
    using compute_value [of 250 150] by (simp add: nearest_tenth_def)
  have "\<bar>float_literal (1833 / 10) - 1833 / 10\<bar> \<le> 1 / 1000"
    by (rule float_literal_near) simp_all
  moreover have "\<bar>float_literal (2167 / 10) - 2167 / 10\<bar> \<le> 1 / 1000"
    by (rule float_literal_near) simp_all
  ultimately have "float_literal (1833 / 10) \<noteq> float_literal (2167 / 10)" by linarith
  with v show ?thesis by simp
qed

text \<open>
  Claim C2, amended: \<^verbatim>\<open>compute(250, 150)\<close> returns a Result whose map field equals
  183.3, the float \<open>3224647701941453 / 2 ^ 44\<close>.
\<close>

theorem compute_250_150:
  "compute 250 150 = Result \<lparr>map_mmHg = float_literal (1833 / 10)\<rparr>
   \<and> float_literal (1833 / 10) = 3224647701941453 / 17592186044416"
  using compute_value [of 250 150] float_183_3 by (simp add: nearest_tenth_def)







text \<open>
  Claim C5. The formula is evaluated only on a validated \<^verbatim>\<open>MAPFormInput\<close>: validation
  yields an input exactly when both fields are integers within their bounds, which are
  then the fields of that input; on such an input the handler raises nothing and the
  route returns its Result; when validation fails the route answers with the validation
  error, without calling the handler.
\<close>

theorem formula_only_on_validated_input:
  "(MAPFormInput_validate sf df = Inr data \<longleftrightarrow>
      sf = Int_value (systolic_bp data) \<and> df = Int_value (diastolic_bp data)
      \<and> 50 \<le> systolic_bp data \<and> systolic_bp data \<le> 250
      \<and> 30 \<le> diastolic_bp data \<and> diastolic_bp data \<le> 150)
   \<and> (MAPFormInput_validate sf df = Inr data \<longrightarrow>
      (\<exists>out. calculate_map data = Inr out \<and> post_calculate sf df = Result out))
   \<and> (\<forall>errs. MAPFormInput_validate sf df = Inl errs \<longrightarrow>
      post_calculate sf df = ValidationError errs)"
proof -
  have iff: "MAPFormInput_validate sf df = Inr data \<longleftrightarrow>
      sf = Int_value (systolic_bp data) \<and> df = Int_value (diastolic_bp data)
      \<and> 50 \<le> systolic_bp data \<and> systolic_bp data \<le> 250
      \<and> 30 \<le> diastolic_bp data \<and> diastolic_bp data \<le> 150"
    using decimal_length_small [of "systolic_bp data"]
      decimal_length_small [of "diastolic_bp data"]
    by (cases sf; cases df)
      (auto simp: MAPFormInput_validate_def int_field_def errors_of_def split: if_splits)
  have run: "\<exists>out. calculate_map data = Inr out \<and> post_calculate sf df = Result out"
    if v: "MAPFormInput_validate sf df = Inr data"
  proof -
    have b: "50 \<le> systolic_bp data" "systolic_bp data \<le> 250"
      "30 \<le> diastolic_bp data" "diastolic_bp data \<le> 150"
      using v iff by simp_all
    then have n: "110 \<le> systolic_bp data + 2 * diastolic_bp data"
      "systolic_bp data + 2 * diastolic_bp data \<le> 550" by linarith+
    have "data = \<lparr>systolic_bp = systolic_bp data, diastolic_bp = diastolic_bp data\<rparr>"
      by simp
    then obtain out where "calculate_map data = Inr out"
      using calculate_map_value [OF n] by metis
    then show ?thesis using v by (simp add: post_calculate_def)
  qed
  have "\<forall>errs. MAPFormInput_validate sf df = Inl errs \<longrightarrow>
      post_calculate sf df = ValidationError errs"
    by (simp add: post_calculate_def)
  with iff run show ?thesis by blast
qed

theorem formula_only_on_validated_input_witness:
  "MAPFormInput_validate (Int_value 120) (Int_value 80)
     = Inr \<lparr>systolic_bp = 120, diastolic_bp = 80\<rparr>
   \<and> (\<exists>out. calculate_map \<lparr>systolic_bp = 120, diastolic_bp = 80\<rparr> = Inr out
      \<and> post_calculate (Int_value 120) (Int_value 80) = Result out)
   \<and> (\<exists>errs. MAPFormInput_validate (Int_value 49) (Int_value 80) = Inl errs
      \<and> post_calculate (Int_value 49) (Int_value 80) = ValidationError errs)"
proof -
  have v: "MAPFormInput_validate (Int_value 120) (Int_value 80)
     = Inr \<lparr>systolic_bp = 120, diastolic_bp = 80\<rparr>"
    using formula_only_on_validated_input
      [of "Int_value 120" "Int_value 80" "\<lparr>systolic_bp = 120, diastolic_bp = 80\<rparr>"]
    by simp
  have r: "\<exists>out. calculate_map \<lparr>systolic_bp = 120, diastolic_bp = 80\<rparr> = Inr out
      \<and> post_calculate (Int_value 120) (Int_value 80) = Result out"
    using v formula_only_on_validated_input
      [of "Int_value 120" "Int_value 80" "\<lparr>systolic_bp = 120, diastolic_bp = 80\<rparr>"]
    by blast
  have e: "MAPFormInput_validate (Int_value 49) (Int_value 80)
      = Inl [(''systolic_bp'', greater_than_equal 50)]"
    using decimal_length_small [of 49] decimal_length_small [of 80]
    by (simp add: MAPFormInput_validate_def int_field_def errors_of_def)
  then have "post_calculate (Int_value 49) (Int_value 80)
      = ValidationError [(''systolic_bp'', greater_than_equal 50)]"
    using formula_only_on_validated_input [of "Int_value 49" "Int_value 80"] by blast
  with v r e show ?thesis by blast
qed

text \<open>
  Claim C6. \<^verbatim>\<open>compute(120, 80)\<close> returns a Result whose map field equals 93.3, the
  float \<open>6565403831776051 / 2 ^ 46\<close>.
\<close>

theorem compute_120_80:
  "compute 120 80 = Result \<lparr>map_mmHg = float_literal (933 / 10)\<rparr>
   \<and> float_literal (933 / 10) = 6565403831776051 / 70368744177664"
  using compute_value [of 120 80] float_93_3 by (simp add: nearest_tenth_def)

text \<open>
  Claim C7. \<^verbatim>\<open>compute(50, 30)\<close> returns a Result whose map field equals 36.7, the
  float \<open>2582532911320269 / 2 ^ 46\<close>.
\<close>

theorem compute_50_30:
  "compute 50 30 = Result \<lparr>map_mmHg = float_literal (367 / 10)\<rparr>
   \<and> float_literal (367 / 10) = 2582532911320269 / 70368744177664"
  using compute_value [of 50 30] float_36_7 by (simp add: nearest_tenth_def)


text \<open>
  Claim C9. For every in-range pair the returned map value is already rounded to one
  decimal place: \<^verbatim>\<open>round(result.map, 1)\<close> is \<^verbatim>\<open>result.map\<close>.
\<close>

theorem result_is_rounded:
  assumes "50 \<le> s" "s \<le> 250" "30 \<le> d" "d \<le> 150"
  shows "\<exists>out. compute s d = Result out \<and> float_round (map_mmHg out) 1 = Inr (map_mmHg out)"
proof -
  have n: "110 \<le> s + 2 * d" "s + 2 * d \<le> 550" using assms by linarith+
  have k: "366 \<le> nearest_tenth (s + 2 * d)" "nearest_tenth (s + 2 * d) \<le> 1834"
    using nearest_tenth_range [OF n] by simp_all
  show ?thesis
    using compute_value [OF assms] round_of_result [OF k]
    by (simp add: float_literal_def)
qed

theorem result_is_rounded_witness:
  "(50::int) \<le> 120 \<and> (120::int) \<le> 250 \<and> (30::int) \<le> 80 \<and> (80::int) \<le> 150
   \<and> (\<exists>out. compute 120 80 = Result out
      \<and> float_round (map_mmHg out) 1 = Inr (map_mmHg out))"
  using result_is_rounded [of 120 80] by simp

text \<open>
  Claim C10. There is no cross-field check: every pair within the per-field bounds gets
  a Result, also when the diastolic value is greater than or equal to the systolic one;
  \<^verbatim>\<open>compute(50, 150)\<close> returns 116.7.
\<close>

theorem no_cross_field_check:
  "(50 \<le> s \<and> s \<le> 250 \<and> 30 \<le> d \<and> d \<le> 150
      \<longrightarrow> (\<exists>out. compute s d = Result out))
   \<and> compute 50 150 = Result \<lparr>map_mmHg = float_literal (1167 / 10)\<rparr>
   \<and> float_literal (1167 / 10) = 8212032445533389 / 70368744177664"
proof -
  have "compute 50 150 = Result \<lparr>map_mmHg = float_literal (1167 / 10)\<rparr>"
    using compute_value [of 50 150] by (simp add: nearest_tenth_def)
  then show ?thesis using compute_value [of s d] float_116_7 by simp
qed

theorem no_cross_field_check_witness:
  "(50::int) \<le> 100 \<and> (100::int) \<le> 250 \<and> (30::int) \<le> 140 \<and> (140::int) \<le> 150
   \<and> (\<exists>out. compute 100 140 = Result out)"
  using no_cross_field_check [of 100 140] by simp

end
